theory Spec2Isabelle
  imports Main
begin

section \<open>The resource resolver (pkg/cmd/resource_resolver.go)\<close>

subsection \<open>Kubernetes API types, restricted to the fields the resolver reads\<close>

text \<open>
  A Go \<^verbatim>\<open>error\<close> is modelled by its message, the string \<^verbatim>\<open>err.Error()\<close> returns:
  every error of the resolver is built by \<^verbatim>\<open>fmt.Errorf\<close> from a format string, and the
  \<^verbatim>\<open>%v\<close> verb prints a wrapped error as its message. A Go call returning
  \<^verbatim>\<open>(T, error)\<close> is a value of \<open>error + T\<close>, \<open>Inl\<close> the error.
\<close>

type_synonym error = string

record APIResource =
  Name :: string
  ShortNames :: "string list"
  Verbs :: "string list"

record GroupVersionForDiscovery =
  GroupVersion :: string

record APIGroup =
  Versions :: "GroupVersionForDiscovery list"
  PreferredVersion :: GroupVersionForDiscovery

record APIGroupList =
  Groups :: "APIGroup list"

record APIResourceList =
  APIResources :: "APIResource list"

record GroupVersionResource =
  Group :: string
  Version :: string
  Resource :: string

text \<open>
  The two collaborators of the resolver are interfaces of client-go and apimachinery;
  only the methods the resolver calls are kept, as functions of a snapshot of the cluster.
\<close>

record DiscoveryInterface =
  ServerGroups :: "error + APIGroupList"
  ServerResourcesForGroupVersion :: "string \<Rightarrow> error + APIResourceList"

record RESTMapper =
  ResourceFor :: "GroupVersionResource \<Rightarrow> error + GroupVersionResource"

record resourceResolver =
  client :: DiscoveryInterface
  mapper :: RESTMapper

text \<open>\<^verbatim>\<open>rbac.ResourceAll\<close> and \<^verbatim>\<open>rbac.VerbAll\<close> of k8s.io/api/rbac/v1.\<close>

definition ResourceAll :: string where
  "ResourceAll = ''*''"

definition VerbAll :: string where
  "VerbAll = ''*''"

subsection \<open>What \<^verbatim>\<open>fmt.Errorf\<close> prints\<close>

text \<open>\<^verbatim>\<open>\"%s\"\<close>: the string between two double quotes.\<close>

definition quoted :: "string \<Rightarrow> string" where
  "quoted s = [CHR 0x22] @ s @ [CHR 0x22]"

text \<open>\<^verbatim>\<open>%v\<close> of a \<^verbatim>\<open>[]string\<close>: the elements separated by one space, in brackets.\<close>

fun spaced :: "string list \<Rightarrow> string" where
  "spaced [] = []"
| "spaced [s] = s"
| "spaced (s # t # ss) = s @ '' '' @ spaced (t # ss)"

definition fmtStrings :: "string list \<Rightarrow> string" where
  "fmtStrings ss = ''['' @ spaced ss @ '']''"

subsection \<open>indexResources\<close>

type_synonym resourceIndex = "string \<rightharpoonup> APIResource"

text \<open>The innermost loop: \<^verbatim>\<open>for _, sn := range res.ShortNames { serverResources[sn] = res }\<close>.\<close>

fun indexShortNames :: "resourceIndex \<Rightarrow> APIResource \<Rightarrow> string list \<Rightarrow> resourceIndex" where
  "indexShortNames serverResources res [] = serverResources"
| "indexShortNames serverResources res (sn # sns) =
     indexShortNames (serverResources(sn \<mapsto> res)) res sns"

text \<open>\<^verbatim>\<open>for _, res := range rsList.APIResources\<close>: the plural name first, then the short names.\<close>

fun indexAPIResources :: "resourceIndex \<Rightarrow> APIResource list \<Rightarrow> resourceIndex" where
  "indexAPIResources serverResources [] = serverResources"
| "indexAPIResources serverResources (res # rs) =
     indexAPIResources
       (if length (ShortNames res) > 0
        then indexShortNames (serverResources(Name res \<mapsto> res)) res (ShortNames res)
        else serverResources(Name res \<mapsto> res))
       rs"

text \<open>
  \<^verbatim>\<open>for _, version := range sg.Versions\<close>: a version that is not the preferred one is
  skipped; a failed fetch leaves the whole function with the wrapped error.
\<close>

fun indexVersions ::
  "DiscoveryInterface \<Rightarrow> APIGroup \<Rightarrow> resourceIndex \<Rightarrow> GroupVersionForDiscovery list
     \<Rightarrow> error + resourceIndex" where
  "indexVersions c sg serverResources [] = Inr serverResources"
| "indexVersions c sg serverResources (version # vs) =
     (if GroupVersion version \<noteq> GroupVersion (PreferredVersion sg)
      then indexVersions c sg serverResources vs
      else (case ServerResourcesForGroupVersion c (GroupVersion version) of
              Inl err \<Rightarrow> Inl (''getting resources for API group: '' @ err)
            | Inr rsList \<Rightarrow>
                indexVersions c sg (indexAPIResources serverResources (APIResources rsList)) vs))"

text \<open>\<^verbatim>\<open>for _, sg := range serverGroups.Groups\<close>.\<close>

fun indexGroups ::
  "DiscoveryInterface \<Rightarrow> resourceIndex \<Rightarrow> APIGroup list \<Rightarrow> error + resourceIndex" where
  "indexGroups c serverResources [] = Inr serverResources"
| "indexGroups c serverResources (sg # sgs) =
     (case indexVersions c sg serverResources (Versions sg) of
        Inl err \<Rightarrow> Inl err
      | Inr serverResources' \<Rightarrow> indexGroups c serverResources' sgs)"

definition indexResources :: "resourceResolver \<Rightarrow> error + resourceIndex" where
  "indexResources rv =
     (case ServerGroups (client rv) of
        Inl err \<Rightarrow> Inl (''getting API groups: '' @ err)
      | Inr serverGroups \<Rightarrow> indexGroups (client rv) Map.empty (Groups serverGroups))"

subsection \<open>Lookups\<close>

definition lookupResource :: "resourceResolver \<Rightarrow> resourceIndex \<Rightarrow> string \<Rightarrow> error + APIResource" where
  "lookupResource rv index resourceArg =
     (case index resourceArg of
        Some resource \<Rightarrow> Inr resource
      | None \<Rightarrow>
          (case ResourceFor (mapper rv) \<lparr>Group = [], Version = [], Resource = resourceArg\<rparr> of
             Inl err \<Rightarrow> Inl err
           | Inr gvr \<Rightarrow>
               (case index (Resource gvr) of
                  Some resource \<Rightarrow> Inr resource
                | None \<Rightarrow> Inl (''not found '' @ quoted resourceArg))))"

definition lookupSubResource :: "resourceIndex \<Rightarrow> string \<Rightarrow> error + APIResource" where
  "lookupSubResource index subResource =
     (case index subResource of
        None \<Rightarrow> Inl (''not found '' @ quoted subResource)
      | Some apiResource \<Rightarrow> Inr apiResource)"

definition resourceFor :: "resourceResolver \<Rightarrow> string \<Rightarrow> string \<Rightarrow> error + APIResource" where
  "resourceFor rv resourceArg subResource =
     (case indexResources rv of
        Inl err \<Rightarrow> Inl err
      | Inr index \<Rightarrow>
          (case lookupResource rv index resourceArg of
             Inl err \<Rightarrow> Inl err
           | Inr apiResource \<Rightarrow>
               (if subResource \<noteq> []
                then (case lookupSubResource index (Name apiResource @ ''/'' @ subResource) of
                        Inl err \<Rightarrow> Inl err
                      | Inr apiResource' \<Rightarrow> Inr apiResource')
                else Inr apiResource)))"

subsection \<open>The verb check and Resolve\<close>

text \<open>
  \<^verbatim>\<open>supported := false; for _, v := range resource.Verbs { if v == verb { supported = true } }\<close>:
  the loop runs over every verb and never leaves early.
\<close>

fun verbLoop :: "string \<Rightarrow> bool \<Rightarrow> string list \<Rightarrow> bool" where
  "verbLoop verb supported [] = supported"
| "verbLoop verb supported (v # vs) = verbLoop verb (if v = verb then True else supported) vs"

definition isVerbSupportedBy :: "string \<Rightarrow> APIResource \<Rightarrow> bool" where
  "isVerbSupportedBy verb resource =
     (if verb = VerbAll then True else verbLoop verb False (Verbs resource))"

definition noResourceType :: "string \<Rightarrow> error" where
  "noResourceType name = ''the server doesn't have a resource type '' @ quoted name"

definition verbNotSupported :: "APIResource \<Rightarrow> string \<Rightarrow> error" where
  "verbNotSupported apiResource verb =
     ''the '' @ quoted (Name apiResource) @ '' resource does not support the '' @ quoted verb
       @ '' verb, only '' @ fmtStrings (Verbs apiResource)"

definition Resolve :: "resourceResolver \<Rightarrow> string \<Rightarrow> string \<Rightarrow> string \<Rightarrow> error + string" where
  "Resolve rv verb resource subResource =
     (if resource = ResourceAll then Inr resource
      else (case resourceFor rv resource subResource of
              Inl err \<Rightarrow>
                Inl (noResourceType
                       (if subResource \<noteq> [] then resource @ ''/'' @ subResource else resource))
            | Inr apiResource \<Rightarrow>
                (if \<not> isVerbSupportedBy verb apiResource
                 then Inl (verbNotSupported apiResource verb)
                 else Inr (Name apiResource))))"

subsection \<open>The enumeration order of indexResources\<close>

text \<open>
  The resources indexResources stores, in the order it stores them: the same three loops,
  collecting the fetched descriptors instead of writing them into the map. These functions
  are not in the source; they name the enumeration order the properties below speak of.
\<close>

fun fetchedVersions ::
  "DiscoveryInterface \<Rightarrow> APIGroup \<Rightarrow> GroupVersionForDiscovery list \<Rightarrow> error + APIResource list" where
  "fetchedVersions c sg [] = Inr []"
| "fetchedVersions c sg (version # vs) =
     (if GroupVersion version \<noteq> GroupVersion (PreferredVersion sg)
      then fetchedVersions c sg vs
      else (case ServerResourcesForGroupVersion c (GroupVersion version) of
              Inl err \<Rightarrow> Inl (''getting resources for API group: '' @ err)
            | Inr rsList \<Rightarrow>
                (case fetchedVersions c sg vs of
                   Inl err \<Rightarrow> Inl err
                 | Inr rs \<Rightarrow> Inr (APIResources rsList @ rs))))"

fun fetchedGroups :: "DiscoveryInterface \<Rightarrow> APIGroup list \<Rightarrow> error + APIResource list" where
  "fetchedGroups c [] = Inr []"
| "fetchedGroups c (sg # sgs) =
     (case fetchedVersions c sg (Versions sg) of
        Inl err \<Rightarrow> Inl err
      | Inr rs \<Rightarrow>
          (case fetchedGroups c sgs of
             Inl err \<Rightarrow> Inl err
           | Inr rs' \<Rightarrow> Inr (rs @ rs')))"

definition fetchedResources :: "resourceResolver \<Rightarrow> error + APIResource list" where
  "fetchedResources rv =
     (case ServerGroups (client rv) of
        Inl err \<Rightarrow> Inl (''getting API groups: '' @ err)
      | Inr serverGroups \<Rightarrow> fetchedGroups (client rv) (Groups serverGroups))"

text \<open>The keys one descriptor is stored under: its plural name, then its short names.\<close>

definition keysOf :: "APIResource \<Rightarrow> string list" where
  "keysOf res = Name res # ShortNames res"

text \<open>The group-versions indexResources fetches: each group's preferred one, if listed.\<close>

definition preferredOf :: "APIGroup \<Rightarrow> string list" where
  "preferredOf sg =
     map GroupVersion
       (filter (\<lambda>version. GroupVersion version = GroupVersion (PreferredVersion sg)) (Versions sg))"

section \<open>The policy rule matcher and the role index (who_can.go)\<close>

text \<open>
  The test file exercises \<^verbatim>\<open>whoCan.policyRuleMatches\<close> and \<^verbatim>\<open>roles.match\<close>; it fixes
  their types: the four string fields of \<^verbatim>\<open>whoCan\<close> with the empty string for an
  absent value, \<^verbatim>\<open>rbac.PolicyRule\<close> with four string slices, \<^verbatim>\<open>role\<close> with a name
  and a flag, and \<^verbatim>\<open>roles\<close> as \<^verbatim>\<open>map[role]struct{}\<close>. The fields of
  \<^verbatim>\<open>rbac.PolicyRule\<close> and \<^verbatim>\<open>rbac.RoleRef\<close> called Verbs and Name in Go are RuleVerbs
  and RefName here.
\<close>

record whoCan =
  verb :: string
  resource :: string
  resourceName :: string
  nonResourceURL :: string

record PolicyRule =
  RuleVerbs :: "string list"
  Resources :: "string list"
  ResourceNames :: "string list"
  NonResourceURLs :: "string list"

record role =
  name :: string
  isClusterRole :: bool

record RoleRef =
  Kind :: string
  RefName :: string

type_synonym roles = "role \<rightharpoonup> unit"

text \<open>
  Modelled from the spec: the body of \<^verbatim>\<open>whoCan.policyRuleMatches\<close> (who_can.go is not
  among the sources), after section 4.2. Non-resource mode, when nonResourceURL is set:
  the verb is in rule.verbs or rule.verbs holds the wildcard, and the URL is in
  rule.nonResourceURLs or that list holds the wildcard. Resource mode otherwise: the verb
  and the resource likewise, and rule.resourceNames is empty or holds resourceName. The
  wildcard is tested by membership of the literal \<^verbatim>\<open>*\<close>.
\<close>

definition policyRuleMatches :: "whoCan \<Rightarrow> PolicyRule \<Rightarrow> bool" where
  "policyRuleMatches w rule =
     (if nonResourceURL w \<noteq> []
      then (verb w \<in> set (RuleVerbs rule) \<or> ''*'' \<in> set (RuleVerbs rule))
         \<and> (nonResourceURL w \<in> set (NonResourceURLs rule) \<or> ''*'' \<in> set (NonResourceURLs rule))
      else (verb w \<in> set (RuleVerbs rule) \<or> ''*'' \<in> set (RuleVerbs rule))
         \<and> (resource w \<in> set (Resources rule) \<or> ''*'' \<in> set (Resources rule))
         \<and> (ResourceNames rule = [] \<or> resourceName w \<in> set (ResourceNames rule)))"

text \<open>
  Modelled from the spec: the body of \<^verbatim>\<open>roles.match\<close> (who_can.go is not among the
  sources), after section 4.3: a membership test of the identity made of the reference's
  name and of whether its kind is the literal \<^verbatim>\<open>ClusterRole\<close>.
\<close>

definition match :: "roles \<Rightarrow> RoleRef \<Rightarrow> bool" where
  "match r roleRef =
     (r \<lparr>name = RefName roleRef, isClusterRole = (Kind roleRef = ''ClusterRole'')\<rparr> \<noteq> None)"

text \<open>
  Modelled from the spec: insertion into the index, which the test writes
  \<^verbatim>\<open>r[entry] = struct{}{}\<close>, and the insertion of a sequence of identities one by one.
\<close>

definition insertRole :: "role \<Rightarrow> roles \<Rightarrow> roles" where
  "insertRole entry r = r(entry \<mapsto> ())"

definition insertRoles :: "role list \<Rightarrow> roles \<Rightarrow> roles" where
  "insertRoles entries r = fold insertRole entries r"

section \<open>Fixtures\<close>

text \<open>A small cluster: the core group and the apps group, which has a non-preferred version.\<close>

definition pods :: APIResource where
  "pods = \<lparr>Name = ''pods'', ShortNames = [''po''], Verbs = [''get'', ''list'', ''delete'']\<rparr>"

definition podsLog :: APIResource where
  "podsLog = \<lparr>Name = ''pods/log'', ShortNames = [], Verbs = [''get'']\<rparr>"

definition persistentvolumes :: APIResource where
  "persistentvolumes =
     \<lparr>Name = ''persistentvolumes'', ShortNames = [''pv''], Verbs = [''get'', ''list'', ''delete'']\<rparr>"

definition deployments :: APIResource where
  "deployments = \<lparr>Name = ''deployments'', ShortNames = [''deploy''], Verbs = [''get'', ''list'']\<rparr>"

definition deploymentsBeta :: APIResource where
  "deploymentsBeta = \<lparr>Name = ''deployments'', ShortNames = [''deploy''], Verbs = [''get'']\<rparr>"

definition coreGroup :: APIGroup where
  "coreGroup = \<lparr>Versions = [\<lparr>GroupVersion = ''v1''\<rparr>], PreferredVersion = \<lparr>GroupVersion = ''v1''\<rparr>\<rparr>"

definition appsGroup :: APIGroup where
  "appsGroup =
     \<lparr>Versions = [\<lparr>GroupVersion = ''apps/v1beta1''\<rparr>, \<lparr>GroupVersion = ''apps/v1''\<rparr>],
      PreferredVersion = \<lparr>GroupVersion = ''apps/v1''\<rparr>\<rparr>"

definition clusterClient :: DiscoveryInterface where
  "clusterClient =
     \<lparr>ServerGroups = Inr \<lparr>Groups = [coreGroup, appsGroup]\<rparr>,
      ServerResourcesForGroupVersion =
        (\<lambda>gv. if gv = ''v1'' then Inr \<lparr>APIResources = [pods, podsLog, persistentvolumes]\<rparr>
              else if gv = ''apps/v1'' then Inr \<lparr>APIResources = [deployments]\<rparr>
              else if gv = ''apps/v1beta1'' then Inr \<lparr>APIResources = [deploymentsBeta]\<rparr>
              else Inl ''not found'')\<rparr>"

definition clusterMapper :: RESTMapper where
  "clusterMapper =
     \<lparr>ResourceFor =
        (\<lambda>gvr. if Resource gvr = ''pod'' then Inr (gvr\<lparr>Version := ''v1'', Resource := ''pods''\<rparr>)
               else if Resource gvr = ''ing''
               then Inr \<lparr>Group = ''extensions'', Version = ''v1beta1'', Resource = ''ingresses''\<rparr>
               else Inl (''no matches for '' @ Resource gvr))\<rparr>"

definition cluster :: resourceResolver where
  "cluster = \<lparr>client = clusterClient, mapper = clusterMapper\<rparr>"

definition clusterIndex :: resourceIndex where
  "clusterIndex =
     [''pods'' \<mapsto> pods, ''po'' \<mapsto> pods, ''pods/log'' \<mapsto> podsLog,
      ''persistentvolumes'' \<mapsto> persistentvolumes, ''pv'' \<mapsto> persistentvolumes,
      ''deployments'' \<mapsto> deployments, ''deploy'' \<mapsto> deployments]"

text \<open>The same cluster, reporting other resources for the non-preferred version of apps.\<close>

definition clusterClient' :: DiscoveryInterface where
  "clusterClient' =
     clusterClient\<lparr>ServerResourcesForGroupVersion :=
        (\<lambda>gv. if gv = ''apps/v1beta1'' then Inr \<lparr>APIResources = [pods]\<rparr>
              else ServerResourcesForGroupVersion clusterClient gv)\<rparr>"

text \<open>Two resources of one group-version with the same short name, and a third after them.\<close>

definition certificates :: APIResource where
  "certificates = \<lparr>Name = ''certificates'', ShortNames = [''cert''], Verbs = [''get'']\<rparr>"

definition certificaterequests :: APIResource where
  "certificaterequests =
     \<lparr>Name = ''certificaterequests'', ShortNames = [''cert''], Verbs = [''get'']\<rparr>"

definition colliding :: resourceResolver where
  "colliding =
     \<lparr>client =
        \<lparr>ServerGroups = Inr \<lparr>Groups = [coreGroup]\<rparr>,
         ServerResourcesForGroupVersion =
           (\<lambda>gv. Inr \<lparr>APIResources = [certificates, certificaterequests, pods]\<rparr>)\<rparr>,
      mapper = clusterMapper\<rparr>"

definition collidingIndex :: resourceIndex where
  "collidingIndex =
     [''certificates'' \<mapsto> certificates, ''cert'' \<mapsto> certificates,
      ''certificaterequests'' \<mapsto> certificaterequests, ''cert'' \<mapsto> certificaterequests,
      ''pods'' \<mapsto> pods, ''po'' \<mapsto> pods]"

text \<open>Clusters whose discovery fails: at the list of groups, and at the resources of a group.\<close>

definition unreachable :: resourceResolver where
  "unreachable =
     \<lparr>client =
        \<lparr>ServerGroups = Inl ''connection refused'',
         ServerResourcesForGroupVersion = (\<lambda>gv. Inl ''connection refused'')\<rparr>,
      mapper = clusterMapper\<rparr>"

definition halfReachable :: resourceResolver where
  "halfReachable =
     \<lparr>client =
        \<lparr>ServerGroups = Inr \<lparr>Groups = [coreGroup]\<rparr>,
         ServerResourcesForGroupVersion = (\<lambda>gv. Inl ''timeout'')\<rparr>,
      mapper = clusterMapper\<rparr>"

text \<open>The rules and queries of scenarios A to L of \<^verbatim>\<open>TestWhoCan_policyRuleMatches\<close>.\<close>

definition query :: "string \<Rightarrow> string \<Rightarrow> string \<Rightarrow> string \<Rightarrow> whoCan" where
  "query v rs rn url = \<lparr>verb = v, resource = rs, resourceName = rn, nonResourceURL = url\<rparr>"

definition resourceRule :: "string list \<Rightarrow> string list \<Rightarrow> string list \<Rightarrow> PolicyRule" where
  "resourceRule vs rs rns =
     \<lparr>RuleVerbs = vs, Resources = rs, ResourceNames = rns, NonResourceURLs = []\<rparr>"

definition urlRule :: "string list \<Rightarrow> string list \<Rightarrow> PolicyRule" where
  "urlRule vs urls =
     \<lparr>RuleVerbs = vs, Resources = [], ResourceNames = [], NonResourceURLs = urls\<rparr>"

section \<open>Properties of the resolver\<close>

lemma verbLoop_eq: "verbLoop v supported vs = (supported \<or> v \<in> set vs)"
  by (induction vs arbitrary: supported) auto

lemma isVerbSupportedBy_iff:
  "isVerbSupportedBy v r = (v = VerbAll \<or> v \<in> set (Verbs r))"
  by (simp add: isVerbSupportedBy_def verbLoop_eq)

subsection \<open>The index as a function of the enumeration\<close>

lemma indexShortNames_apply:
  "indexShortNames m res sns k = (if k \<in> set sns then Some res else m k)"
  by (induction sns arbitrary: m) auto

lemma indexAPIResources_Cons:
  "indexAPIResources m (res # rs) =
     indexAPIResources (\<lambda>k. if k \<in> set (keysOf res) then Some res else m k) rs"
proof -
  have "(if length (ShortNames res) > 0
         then indexShortNames (m(Name res \<mapsto> res)) res (ShortNames res)
         else m(Name res \<mapsto> res)) = (\<lambda>k. if k \<in> set (keysOf res) then Some res else m k)"
    by (rule ext) (auto simp: indexShortNames_apply keysOf_def)
  then show ?thesis by simp
qed

lemma indexAPIResources_append:
  "indexAPIResources m (xs @ ys) = indexAPIResources (indexAPIResources m xs) ys"
  by (induction xs arbitrary: m) (simp_all del: indexAPIResources.simps(2) add: indexAPIResources_Cons)

lemma indexAPIResources_absent:
  "\<forall>r \<in> set rs. k \<notin> set (keysOf r) \<Longrightarrow> indexAPIResources m rs k = m k"
  by (induction rs arbitrary: m) (simp_all del: indexAPIResources.simps(2) add: indexAPIResources_Cons)

lemma indexAPIResources_last:
  assumes "k \<in> set (keysOf r)" and "\<forall>r' \<in> set post. k \<notin> set (keysOf r')"
  shows "indexAPIResources m (pre @ r # post) k = Some r"
  using assms
  by (simp del: indexAPIResources.simps(2)
        add: indexAPIResources_append indexAPIResources_Cons indexAPIResources_absent)

lemma indexAPIResources_Some:
  "indexAPIResources m rs k = Some r \<Longrightarrow> m k = Some r \<or> (r \<in> set rs \<and> k \<in> set (keysOf r))"
proof (induction rs arbitrary: m)
  case Nil
  then show ?case by simp
next
  case (Cons a rs)
  from Cons.prems have
    "indexAPIResources (\<lambda>k. if k \<in> set (keysOf a) then Some a else m k) rs k = Some r"
    by (simp only: indexAPIResources_Cons)
  from Cons.IH[OF this] show ?case by (auto split: if_splits)
qed

lemma indexVersions_fetched:
  "indexVersions c sg m vs =
     (case fetchedVersions c sg vs of Inl e \<Rightarrow> Inl e | Inr rs \<Rightarrow> Inr (indexAPIResources m rs))"
  by (induction vs arbitrary: m) (auto simp: indexAPIResources_append split: sum.splits)

lemma indexGroups_fetched:
  "indexGroups c m sgs =
     (case fetchedGroups c sgs of Inl e \<Rightarrow> Inl e | Inr rs \<Rightarrow> Inr (indexAPIResources m rs))"
  by (induction sgs arbitrary: m) (auto simp: indexVersions_fetched indexAPIResources_append split: sum.splits)

lemma indexResources_fetched:
  "indexResources rv =
     (case fetchedResources rv of Inl e \<Rightarrow> Inl e | Inr rs \<Rightarrow> Inr (indexAPIResources Map.empty rs))"
  by (simp add: indexResources_def fetchedResources_def indexGroups_fetched split: sum.splits)

lemma fetchedVersions_source:
  "fetchedVersions c sg vs = Inr rs \<Longrightarrow> r \<in> set rs \<Longrightarrow>
     \<exists>version \<in> set vs. GroupVersion version = GroupVersion (PreferredVersion sg) \<and>
       (\<exists>rsList. ServerResourcesForGroupVersion c (GroupVersion version) = Inr rsList
          \<and> r \<in> set (APIResources rsList))"
  by (induction vs arbitrary: rs) (auto split: if_splits sum.splits)

lemma fetchedGroups_source:
  "fetchedGroups c sgs = Inr rs \<Longrightarrow> r \<in> set rs \<Longrightarrow>
     \<exists>sg \<in> set sgs. \<exists>gv \<in> set (preferredOf sg). \<exists>rsList.
        ServerResourcesForGroupVersion c gv = Inr rsList \<and> r \<in> set (APIResources rsList)"
proof (induction sgs arbitrary: rs)
  case Nil
  then show ?case by simp
next
  case (Cons sg sgs)
  from Cons.prems(1) obtain xs ys where
    xs: "fetchedVersions c sg (Versions sg) = Inr xs" and ys: "fetchedGroups c sgs = Inr ys"
    and rs: "rs = xs @ ys"
    by (auto split: sum.splits)
  from Cons.prems(2) rs consider "r \<in> set xs" | "r \<in> set ys" by auto
  then show ?case
  proof cases
    case 1
    from fetchedVersions_source[OF xs 1] show ?thesis
      by (fastforce simp: preferredOf_def)
  next
    case 2
    from Cons.IH[OF ys 2] show ?thesis by auto
  qed
qed

lemma fetchedVersions_cong:
  "\<forall>gv \<in> set (map GroupVersion (filter (\<lambda>version. GroupVersion version = GroupVersion (PreferredVersion sg)) vs)).
      ServerResourcesForGroupVersion c' gv = ServerResourcesForGroupVersion c gv \<Longrightarrow>
   fetchedVersions c' sg vs = fetchedVersions c sg vs"
  by (induction vs) (auto split: sum.splits)

lemma fetchedGroups_cong:
  "\<forall>sg \<in> set sgs. \<forall>gv \<in> set (preferredOf sg).
      ServerResourcesForGroupVersion c' gv = ServerResourcesForGroupVersion c gv \<Longrightarrow>
   fetchedGroups c' sgs = fetchedGroups c sgs"
proof (induction sgs)
  case Nil
  then show ?case by simp
next
  case (Cons sg sgs)
  have "fetchedVersions c' sg (Versions sg) = fetchedVersions c sg (Versions sg)"
    using Cons.prems by (intro fetchedVersions_cong) (simp add: preferredOf_def)
  moreover have "fetchedGroups c' sgs = fetchedGroups c sgs"
    using Cons.prems by (intro Cons.IH) simp
  ultimately show ?case by (simp split: sum.splits)
qed

lemma fetchedVersions_error:
  "fetchedVersions c sg vs = Inl e \<Longrightarrow>
     \<exists>gv cause. ServerResourcesForGroupVersion c gv = Inl cause
        \<and> e = ''getting resources for API group: '' @ cause"
  by (induction vs) (auto split: if_splits sum.splits)

lemma fetchedGroups_error:
  "fetchedGroups c sgs = Inl e \<Longrightarrow>
     \<exists>gv cause. ServerResourcesForGroupVersion c gv = Inl cause
        \<and> e = ''getting resources for API group: '' @ cause"
proof (induction sgs)
  case Nil
  then show ?case by simp
next
  case (Cons sg sgs)
  show ?case
  proof (cases "fetchedVersions c sg (Versions sg)")
    case (Inl e')
    with Cons.prems have "fetchedVersions c sg (Versions sg) = Inl e" by simp
    then show ?thesis by (rule fetchedVersions_error)
  next
    case (Inr xs)
    with Cons.prems have "fetchedGroups c sgs = Inl e" by (simp split: sum.splits)
    then show ?thesis by (rule Cons.IH)
  qed
qed

lemma indexResources_error:
  assumes "indexResources rv = Inl e"
  shows "(\<exists>cause. ServerGroups (client rv) = Inl cause \<and> e = ''getting API groups: '' @ cause) \<or>
     (\<exists>gv cause. ServerResourcesForGroupVersion (client rv) gv = Inl cause
        \<and> e = ''getting resources for API group: '' @ cause)"
proof (cases "ServerGroups (client rv)")
  case (Inl cause)
  with assms have "e = ''getting API groups: '' @ cause"
    by (simp add: indexResources_def)
  with Inl show ?thesis by blast
next
  case (Inr serverGroups)
  with assms have "fetchedGroups (client rv) (Groups serverGroups) = Inl e"
    by (simp add: indexResources_fetched fetchedResources_def split: sum.splits)
  from fetchedGroups_error[OF this] show ?thesis by blast
qed

subsection \<open>The fixtures, evaluated\<close>

lemmas cluster_defs =
  cluster_def clusterClient_def clusterMapper_def coreGroup_def appsGroup_def
  pods_def podsLog_def persistentvolumes_def deployments_def deploymentsBeta_def

lemma indexResources_cluster: "indexResources cluster = Inr clusterIndex"
  by (simp add: indexResources_def cluster_defs clusterIndex_def)

lemma indexResources_unreachable:
  "indexResources unreachable = Inl ''getting API groups: connection refused''"
  by (simp add: indexResources_def unreachable_def)

lemma indexResources_halfReachable:
  "indexResources halfReachable = Inl ''getting resources for API group: timeout''"
  by (simp add: indexResources_def halfReachable_def coreGroup_def)

lemma indexResources_colliding: "indexResources colliding = Inr collidingIndex"
  by (simp add: indexResources_def colliding_def coreGroup_def collidingIndex_def
        certificates_def certificaterequests_def pods_def)

lemma fetchedResources_colliding:
  "fetchedResources colliding = Inr ([certificates] @ certificaterequests # [pods])"
  by (simp add: fetchedResources_def colliding_def coreGroup_def)

lemma cluster_sel: "client cluster = clusterClient" "mapper cluster = clusterMapper"
  by (simp_all add: cluster_def)

lemma lookupResource_cluster_po: "lookupResource cluster clusterIndex ''po'' = Inr pods"
  by (simp add: lookupResource_def clusterIndex_def)

lemma resourceFor_cluster_pod: "resourceFor cluster ''pod'' [] = Inr pods"
  by (simp add: resourceFor_def indexResources_cluster lookupResource_def clusterIndex_def
        cluster_sel clusterMapper_def)

subsection \<open>Resolve after resourceFor\<close>

lemma Resolve_found:
  assumes "rs \<noteq> ResourceAll" and "resourceFor rv rs sub = Inr d"
  shows "Resolve rv v rs sub =
           (if v = VerbAll \<or> v \<in> set (Verbs d) then Inr (Name d) else Inl (verbNotSupported d v))"
  using assms by (simp add: Resolve_def isVerbSupportedBy_iff)

lemma Resolve_failed:
  assumes "rs \<noteq> ResourceAll" and "resourceFor rv rs sub = Inl e"
  shows "Resolve rv v rs sub = Inl (noResourceType (if sub \<noteq> [] then rs @ ''/'' @ sub else rs))"
  using assms by (simp add: Resolve_def)

section \<open>The claims about the resolver\<close>

text \<open>
  C1 (as the code has it). The claim reads: when building the discovery index fails, the
  error Resolve returns is the discovery failure wrapped with the step that failed, and is
  not the "no such resource type" error. The code does otherwise: Resolve answers every
  error of resourceFor with the "no such resource type" error for the name it was given.
  What holds: for a resource other than the wildcard, when indexResources fails, its error
  is the cause prefixed by "getting API groups: " or "getting resources for API group: ",
  resourceFor returns that error unchanged, and Resolve returns
  \<^verbatim>\<open>the server doesn't have a resource type "<resource>"\<close> (with \<^verbatim>\<open>/<subResource>\<close>
  appended to the name when a sub-resource is given), which carries neither the step nor
  the cause.
\<close>

theorem Resolve_hides_discovery_failure:
  assumes "rs \<noteq> ResourceAll" and "indexResources rv = Inl e"
  shows "((\<exists>cause. ServerGroups (client rv) = Inl cause \<and> e = ''getting API groups: '' @ cause) \<or>
          (\<exists>gv cause. ServerResourcesForGroupVersion (client rv) gv = Inl cause
             \<and> e = ''getting resources for API group: '' @ cause))
       \<and> resourceFor rv rs sub = Inl e
       \<and> Resolve rv v rs sub
           = Inl (''the server doesn't have a resource type ''
                    @ quoted (if sub \<noteq> [] then rs @ ''/'' @ sub else rs))"
proof -
  have rf: "resourceFor rv rs sub = Inl e"
    using assms(2) by (simp add: resourceFor_def)
  have "Resolve rv v rs sub = Inl (noResourceType (if sub \<noteq> [] then rs @ ''/'' @ sub else rs))"
    using assms(1) rf by (simp add: Resolve_def)
  then show ?thesis
    using indexResources_error[OF assms(2)] rf by (simp only: noResourceType_def simp_thms)
qed

theorem Resolve_hides_discovery_failure_witness:
  "''pods'' \<noteq> ResourceAll
   \<and> indexResources halfReachable = Inl ''getting resources for API group: timeout''
   \<and> resourceFor halfReachable ''pods'' ''log'' = Inl ''getting resources for API group: timeout''
   \<and> Resolve halfReachable ''get'' ''pods'' ''log'' = Inl (noResourceType ''pods/log'')"
proof -
  have a: "''pods'' \<noteq> ResourceAll" by (simp add: ResourceAll_def)
  from Resolve_hides_discovery_failure[OF a indexResources_halfReachable, of "''log''" "''get''"]
  show ?thesis using a indexResources_halfReachable by (simp add: noResourceType_def)
qed

text \<open>
  C1 as stated fails: with a server that refuses the connection, and with one that lists its
  groups but times out on their resources, Resolve returns the "no such resource type" error
  and not the wrapped discovery error.
\<close>

theorem discovery_failure_not_propagated:
  "indexResources unreachable = Inl ''getting API groups: connection refused''
   \<and> Resolve unreachable ''get'' ''pods'' [] = Inl (noResourceType ''pods'')
   \<and> Resolve unreachable ''get'' ''pods'' [] \<noteq> Inl ''getting API groups: connection refused''
   \<and> indexResources halfReachable = Inl ''getting resources for API group: timeout''
   \<and> Resolve halfReachable ''get'' ''pods'' [] = Inl (noResourceType ''pods'')
   \<and> Resolve halfReachable ''get'' ''pods'' [] \<noteq> Inl ''getting resources for API group: timeout''"
  by (simp add: indexResources_unreachable indexResources_halfReachable Resolve_def
        resourceFor_def ResourceAll_def noResourceType_def)

text \<open>
  C5 (as the code has it). The claim reads: for every resource in the index, Resolve called
  with its plural name or one of its short names (a supported verb, no sub-resource) returns
  its plural name. That fails for a name a later resource of the enumeration bears too
  (the later descriptor takes the key, see C10), and for a short name that is the wildcard
  (Resolve returns the wildcard before any lookup). What holds: for every key other than
  the wildcard that the index maps to a descriptor, Resolve called with that key, a verb the
  descriptor supports and no sub-resource returns the descriptor's plural name; and the key
  is the plural name or a short name of that descriptor.
\<close>

theorem Resolve_indexed_name:
  assumes "indexResources rv = Inr index" and "index k = Some r"
    and "k \<noteq> ResourceAll" and "v = VerbAll \<or> v \<in> set (Verbs r)"
  shows "Resolve rv v k [] = Inr (Name r) \<and> k \<in> set (keysOf r)"
proof -
  have "lookupResource rv index k = Inr r"
    using assms(2) by (simp add: lookupResource_def)
  then have "resourceFor rv k [] = Inr r"
    using assms(1) by (simp add: resourceFor_def)
  from Resolve_found[OF assms(3) this] assms(4) have "Resolve rv v k [] = Inr (Name r)"
    by simp
  moreover have "k \<in> set (keysOf r)"
    using assms(1,2) indexAPIResources_Some[of Map.empty _ k r]
    by (auto simp: indexResources_fetched split: sum.splits)
  ultimately show ?thesis ..
qed

theorem Resolve_indexed_name_witness:
  "indexResources cluster = Inr clusterIndex \<and> clusterIndex ''pv'' = Some persistentvolumes
   \<and> ''pv'' \<noteq> ResourceAll \<and> ''delete'' \<in> set (Verbs persistentvolumes)
   \<and> Resolve cluster ''delete'' ''pv'' [] = Inr ''persistentvolumes''"
proof -
  have a: "clusterIndex ''pv'' = Some persistentvolumes" by (simp add: clusterIndex_def)
  have b: "''pv'' \<noteq> ResourceAll" by (simp add: ResourceAll_def)
  have c: "''delete'' = VerbAll \<or> ''delete'' \<in> set (Verbs persistentvolumes)"
    by (simp add: persistentvolumes_def)
  from Resolve_indexed_name[OF indexResources_cluster a b c]
  show ?thesis using indexResources_cluster a b by (simp add: persistentvolumes_def)
qed

text \<open>
  C5 as stated fails: certificates is in the index under its plural name and has the short
  name cert, but certificaterequests, fetched after it, has the same short name, and
  resolving cert yields certificaterequests.
\<close>

theorem short_name_of_indexed_resource_resolves_elsewhere:
  "indexResources colliding = Inr collidingIndex
   \<and> collidingIndex ''certificates'' = Some certificates
   \<and> Name certificates = ''certificates'' \<and> ShortNames certificates = [''cert'']
   \<and> ''get'' \<in> set (Verbs certificates)
   \<and> Resolve colliding ''get'' ''cert'' [] = Inr ''certificaterequests''
   \<and> Resolve colliding ''get'' ''cert'' [] \<noteq> Inr (Name certificates)"
  by (simp add: indexResources_colliding Resolve_def resourceFor_def lookupResource_def
        ResourceAll_def isVerbSupportedBy_iff VerbAll_def collidingIndex_def
        certificates_def certificaterequests_def)

text \<open>
  C10. When several fetched resources bear the same key (as plural name or short name),
  indexResources maps the key to the one stored last in the enumeration order of groups,
  preferred versions and resources: if the enumeration is \<open>pre @ r # post\<close>, the key is one
  of r's and of none in post, then the index is built and maps the key to r, whatever
  descriptors of pre bore the key. The index is a map, so a key has one descriptor; under a
  shared short name the earlier resource cannot be reached.
\<close>

theorem index_keeps_last_descriptor:
  assumes "fetchedResources rv = Inr (pre @ r # post)"
    and "k \<in> set (keysOf r)" and "\<forall>r' \<in> set post. k \<notin> set (keysOf r')"
  shows "\<exists>index. indexResources rv = Inr index \<and> index k = Some r
           \<and> (\<forall>r0 \<in> set pre. r0 \<noteq> r \<longrightarrow> index k \<noteq> Some r0)"
  using assms by (simp add: indexResources_fetched indexAPIResources_last)

theorem index_keeps_last_descriptor_witness:
  "fetchedResources colliding = Inr ([certificates] @ certificaterequests # [pods])
   \<and> ''cert'' \<in> set (keysOf certificates) \<and> ''cert'' \<in> set (keysOf certificaterequests)
   \<and> ''cert'' \<notin> set (keysOf pods) \<and> certificates \<noteq> certificaterequests
   \<and> (\<exists>index. indexResources colliding = Inr index \<and> index ''cert'' = Some certificaterequests
         \<and> index ''cert'' \<noteq> Some certificates)"
proof -
  have a: "''cert'' \<in> set (keysOf certificaterequests)"
    by (simp add: keysOf_def certificaterequests_def)
  have b: "\<forall>r' \<in> set [pods]. ''cert'' \<notin> set (keysOf r')"
    by (simp add: keysOf_def pods_def)
  have c: "certificates \<noteq> certificaterequests"
    by (simp add: certificates_def certificaterequests_def)
  have d: "''cert'' \<in> set (keysOf certificates)"
    by (simp add: keysOf_def certificates_def)
  from index_keeps_last_descriptor[OF fetchedResources_colliding a b] c
  obtain index where "indexResources colliding = Inr index"
    and "index ''cert'' = Some certificaterequests" and "index ''cert'' \<noteq> Some certificates"
    by auto
  then show ?thesis using fetchedResources_colliding a b c d by simp
qed

text \<open>
  C6 (as the code has it). The claim reads: with a sub-resource, once the parent is resolved
  the index is looked up again under \<^verbatim>\<open><canonicalName>/<subResource>\<close>; when that lookup
  fails the call fails with the "no such resource type" error for the compound name, and
  when it succeeds the verb check is made against the sub-resource's descriptor. The lookup
  and the verb check are as claimed, but the error of Resolve names the resource as the
  caller wrote it, joined with the sub-resource, not the canonical key that was looked up:
  the two differ when the caller gave a short name. What holds: for a resource other than
  the wildcard and a non-empty sub-resource, when the index is built and the parent is
  found, resourceFor is the lookup of \<^verbatim>\<open><Name of the parent>/<subResource>\<close>; when the key
  is absent Resolve fails with
  \<^verbatim>\<open>the server doesn't have a resource type "<resource>/<subResource>"\<close>, and when it is
  present Resolve checks the verb against the descriptor found there and returns its name.
\<close>

theorem Resolve_subResource:
  assumes "rs \<noteq> ResourceAll" and "sub \<noteq> []"
    and "indexResources rv = Inr index" and "lookupResource rv index rs = Inr parent"
  shows "resourceFor rv rs sub = lookupSubResource index (Name parent @ ''/'' @ sub)
       \<and> Resolve rv v rs sub =
           (case index (Name parent @ ''/'' @ sub) of
              None \<Rightarrow> Inl (''the server doesn't have a resource type '' @ quoted (rs @ ''/'' @ sub))
            | Some d \<Rightarrow>
                if isVerbSupportedBy v d then Inr (Name d) else Inl (verbNotSupported d v))"
proof -
  have rf: "resourceFor rv rs sub = lookupSubResource index (Name parent @ ''/'' @ sub)"
    using assms(2,3,4) by (simp add: resourceFor_def split: sum.splits)
  show ?thesis
  proof (cases "index (Name parent @ ''/'' @ sub)")
    case None
    then have "resourceFor rv rs sub = Inl (''not found '' @ quoted (Name parent @ ''/'' @ sub))"
      using rf by (simp add: lookupSubResource_def)
    from Resolve_failed[OF assms(1) this] rf None assms(2) show ?thesis
      by (simp add: noResourceType_def)
  next
    case (Some d)
    then have "resourceFor rv rs sub = Inr d"
      using rf by (simp add: lookupSubResource_def)
    from Resolve_found[OF assms(1) this] rf Some show ?thesis
      by (simp add: isVerbSupportedBy_iff)
  qed
qed

theorem Resolve_subResource_witness:
  "''po'' \<noteq> ResourceAll \<and> ''log'' \<noteq> [] \<and> indexResources cluster = Inr clusterIndex
   \<and> lookupResource cluster clusterIndex ''po'' = Inr pods
   \<and> clusterIndex ''pods/log'' = Some podsLog
   \<and> ''list'' \<in> set (Verbs pods) \<and> ''list'' \<notin> set (Verbs podsLog)
   \<and> Resolve cluster ''get'' ''po'' ''log'' = Inr ''pods/log''
   \<and> Resolve cluster ''list'' ''po'' ''log'' = Inl (verbNotSupported podsLog ''list'')
   \<and> Resolve cluster ''get'' ''po'' ''nope'' = Inl (noResourceType ''po/nope'')"
proof -
  have a: "''po'' \<noteq> ResourceAll" by (simp add: ResourceAll_def)
  have b: "''log'' \<noteq> []" and b': "''nope'' \<noteq> []" by simp_all
  have n: "Name pods = ''pods''" by (simp add: pods_def)
  have l: "clusterIndex ''pods/log'' = Some podsLog" by (simp add: clusterIndex_def)
  have l': "clusterIndex ''pods/nope'' = None" by (simp add: clusterIndex_def)
  have v: "isVerbSupportedBy ''get'' podsLog" "\<not> isVerbSupportedBy ''list'' podsLog"
    by (simp_all add: isVerbSupportedBy_iff VerbAll_def podsLog_def)
  have "Resolve cluster ''get'' ''po'' ''log'' = Inr ''pods/log''"
    using Resolve_subResource[OF a b indexResources_cluster lookupResource_cluster_po, of "''get''"]
      n l v by (simp add: podsLog_def)
  moreover have "Resolve cluster ''list'' ''po'' ''log'' = Inl (verbNotSupported podsLog ''list'')"
    using Resolve_subResource[OF a b indexResources_cluster lookupResource_cluster_po, of "''list''"]
      n l v by simp
  moreover have "Resolve cluster ''get'' ''po'' ''nope'' = Inl (noResourceType ''po/nope'')"
    using Resolve_subResource[OF a b' indexResources_cluster lookupResource_cluster_po, of "''get''"]
      n l' by (simp add: noResourceType_def)
  moreover have "''list'' \<in> set (Verbs pods) \<and> ''list'' \<notin> set (Verbs podsLog)"
    by (simp add: pods_def podsLog_def)
  ultimately show ?thesis
    using a b indexResources_cluster lookupResource_cluster_po l by simp
qed

text \<open>
  C6 as stated fails: for the short name po and the missing sub-resource nope, the key looked
  up is pods/nope (the error of resourceFor says so), and the error of Resolve names po/nope.
\<close>

theorem missing_subResource_named_by_input_token:
  "Name pods = ''pods''
   \<and> lookupResource cluster clusterIndex ''po'' = Inr pods
   \<and> resourceFor cluster ''po'' ''nope'' = Inl (''not found '' @ quoted ''pods/nope'')
   \<and> Resolve cluster ''get'' ''po'' ''nope'' = Inl (noResourceType ''po/nope'')
   \<and> Resolve cluster ''get'' ''po'' ''nope'' \<noteq> Inl (noResourceType ''pods/nope'')"
proof -
  have n: "Name pods = ''pods''" by (simp add: pods_def)
  have l: "clusterIndex ''pods/nope'' = None" by (simp add: clusterIndex_def)
  have rf: "resourceFor cluster ''po'' ''nope'' = Inl (''not found '' @ quoted ''pods/nope'')"
    by (simp add: resourceFor_def indexResources_cluster lookupResource_cluster_po
          lookupSubResource_def n l)
  have "Resolve cluster ''get'' ''po'' ''nope'' = Inl (noResourceType ''po/nope'')"
    by (simp add: Resolve_def ResourceAll_def rf)
  moreover have "noResourceType ''po/nope'' \<noteq> noResourceType ''pods/nope''"
    by (simp add: noResourceType_def quoted_def)
  ultimately show ?thesis using n lookupResource_cluster_po rf by simp
qed

text \<open>
  C7. For a descriptor that resourceFor finds, the verb check passes exactly when the verb
  is the wildcard or a member of the descriptor's verbs, and Resolve with the wildcard verb
  succeeds whatever the descriptor's verbs are. When Resolve resolves the descriptor (the
  resource is not the wildcard, which Resolve returns before resolving anything), the
  wildcard verb yields the descriptor's name, a supported verb likewise, and any other verb
  fails with \<^verbatim>\<open>the "<name>" resource does not support the "<verb>" verb, only [<verbs>]\<close>,
  which names the resolved resource, the rejected verb and every supported verb.
\<close>

theorem verb_check:
  assumes "resourceFor rv rs sub = Inr d"
  shows "isVerbSupportedBy v d = (v = VerbAll \<or> v \<in> set (Verbs d))
       \<and> (\<exists>n. Resolve rv VerbAll rs sub = Inr n)
       \<and> (rs \<noteq> ResourceAll \<longrightarrow>
            Resolve rv VerbAll rs sub = Inr (Name d)
            \<and> Resolve rv v rs sub =
                (if v = VerbAll \<or> v \<in> set (Verbs d) then Inr (Name d)
                 else Inl (''the '' @ quoted (Name d) @ '' resource does not support the ''
                             @ quoted v @ '' verb, only '' @ fmtStrings (Verbs d))))"
proof (cases "rs = ResourceAll")
  case True
  then show ?thesis by (simp add: Resolve_def isVerbSupportedBy_iff)
next
  case False
  from Resolve_found[OF False assms, of v] Resolve_found[OF False assms, of VerbAll]
  show ?thesis by (simp add: isVerbSupportedBy_iff verbNotSupported_def)
qed

theorem verb_check_witness:
  "''pod'' \<noteq> ResourceAll \<and> resourceFor cluster ''pod'' [] = Inr pods
   \<and> Verbs pods = [''get'', ''list'', ''delete'']
   \<and> Resolve cluster ''*'' ''pod'' [] = Inr ''pods''
   \<and> Resolve cluster ''list'' ''pod'' [] = Inr ''pods''
   \<and> Resolve cluster ''patch'' ''pod'' [] =
       Inl (''the '' @ quoted ''pods'' @ '' resource does not support the '' @ quoted ''patch''
              @ '' verb, only [get list delete]'')"
proof -
  have a: "''pod'' \<noteq> ResourceAll" by (simp add: ResourceAll_def)
  have p: "Name pods = ''pods''" "Verbs pods = [''get'', ''list'', ''delete'']"
    by (simp_all add: pods_def)
  have "Resolve cluster ''*'' ''pod'' [] = Inr ''pods''"
    using a verb_check[OF resourceFor_cluster_pod, of "''*''"] p by (simp add: VerbAll_def)
  moreover have "Resolve cluster ''list'' ''pod'' [] = Inr ''pods''"
    using a verb_check[OF resourceFor_cluster_pod, of "''list''"] p by simp
  moreover have "Resolve cluster ''patch'' ''pod'' [] =
       Inl (''the '' @ quoted ''pods'' @ '' resource does not support the '' @ quoted ''patch''
              @ '' verb, only [get list delete]'')"
    using a verb_check[OF resourceFor_cluster_pod, of "''patch''"] p
    by (simp add: VerbAll_def fmtStrings_def)
  ultimately show ?thesis using a resourceFor_cluster_pod p by simp
qed

text \<open>
  C8 (as the code has it). The claim reads: for every resource token that is not in the
  index, even after the REST mapping, Resolve fails with an error that mentions the token
  (joined with the sub-resource by a slash when one is given). That fails for the wildcard
  token, which Resolve returns unchanged before any lookup. What holds: for every token
  other than the wildcard that the index does not hold, and whose REST mapping either fails
  or yields a name the index does not hold, Resolve fails with
  \<^verbatim>\<open>the server doesn't have a resource type "<token>"\<close>, the token followed by
  \<^verbatim>\<open>/<subResource>\<close> when a sub-resource is given.
\<close>

theorem Resolve_unknown_resource:
  assumes "rs \<noteq> ResourceAll" and "indexResources rv = Inr index" and "index rs = None"
    and "\<forall>gvr. ResourceFor (mapper rv) \<lparr>Group = [], Version = [], Resource = rs\<rparr> = Inr gvr
           \<longrightarrow> index (Resource gvr) = None"
  shows "Resolve rv v rs sub =
           Inl (''the server doesn't have a resource type ''
                  @ quoted (if sub \<noteq> [] then rs @ ''/'' @ sub else rs))"
proof -
  have "\<exists>e. lookupResource rv index rs = Inl e"
    using assms(3,4) by (auto simp: lookupResource_def split: sum.splits)
  then have "\<exists>e. resourceFor rv rs sub = Inl e"
    using assms(2) by (auto simp: resourceFor_def)
  then obtain e where "resourceFor rv rs sub = Inl e" ..
  from Resolve_failed[OF assms(1) this] show ?thesis by (simp only: noResourceType_def)
qed

theorem Resolve_unknown_resource_witness:
  "''ing'' \<noteq> ResourceAll \<and> indexResources cluster = Inr clusterIndex \<and> clusterIndex ''ing'' = None
   \<and> ResourceFor (mapper cluster) \<lparr>Group = [], Version = [], Resource = ''ing''\<rparr>
       = Inr \<lparr>Group = ''extensions'', Version = ''v1beta1'', Resource = ''ingresses''\<rparr>
   \<and> clusterIndex ''ingresses'' = None
   \<and> Resolve cluster ''get'' ''ing'' [] = Inl (noResourceType ''ing'')
   \<and> Resolve cluster ''get'' ''ing'' ''status'' = Inl (noResourceType ''ing/status'')"
proof -
  have a: "''ing'' \<noteq> ResourceAll" by (simp add: ResourceAll_def)
  have b: "clusterIndex ''ing'' = None" "clusterIndex ''ingresses'' = None"
    by (simp_all add: clusterIndex_def)
  have m: "ResourceFor (mapper cluster) \<lparr>Group = [], Version = [], Resource = ''ing''\<rparr>
       = Inr \<lparr>Group = ''extensions'', Version = ''v1beta1'', Resource = ''ingresses''\<rparr>"
    by (simp add: cluster_sel clusterMapper_def)
  have c: "\<forall>gvr. ResourceFor (mapper cluster) \<lparr>Group = [], Version = [], Resource = ''ing''\<rparr> = Inr gvr
           \<longrightarrow> clusterIndex (Resource gvr) = None"
    using m b by simp
  from Resolve_unknown_resource[OF a indexResources_cluster b(1) c, of "''get''" "[]"]
       Resolve_unknown_resource[OF a indexResources_cluster b(1) c, of "''get''" "''status''"]
  show ?thesis using a indexResources_cluster b m by (simp add: noResourceType_def)
qed

text \<open>
  C8 as stated fails: the wildcard is not a key of the index and the REST mapping rejects
  it, yet Resolve succeeds and returns it, with or without a sub-resource.
\<close>

theorem wildcard_resource_not_looked_up:
  "indexResources cluster = Inr clusterIndex \<and> clusterIndex ''*'' = None
   \<and> ResourceFor (mapper cluster) \<lparr>Group = [], Version = [], Resource = ''*''\<rparr> = Inl ''no matches for *''
   \<and> Resolve cluster ''get'' ''*'' [] = Inr ''*''
   \<and> Resolve cluster ''get'' ''*'' ''log'' = Inr ''*''"
  by (simp add: indexResources_cluster clusterIndex_def cluster_sel clusterMapper_def
        Resolve_def ResourceAll_def)

text \<open>
  C9. The index holds only resources of preferred versions. When the groups are listed and
  the index is built, every descriptor in the index, under whichever key, is one the server
  reported for the preferred group-version of some listed group, and the key is its plural
  name or one of its short names. And what the server reports for any other group-version
  is never read: a client that lists the same groups and reports the same resources for
  their preferred versions yields the same index.
\<close>

theorem index_from_preferred_versions_only:
  assumes "ServerGroups (client rv) = Inr serverGroups" and "indexResources rv = Inr index"
  shows "(\<forall>k r. index k = Some r \<longrightarrow>
            k \<in> set (keysOf r) \<and>
            (\<exists>sg \<in> set (Groups serverGroups). \<exists>gv \<in> set (preferredOf sg). \<exists>rsList.
               ServerResourcesForGroupVersion (client rv) gv = Inr rsList
               \<and> r \<in> set (APIResources rsList)))
       \<and> (\<forall>c' :: DiscoveryInterface. ServerGroups c' = Inr serverGroups
              \<and> (\<forall>sg \<in> set (Groups serverGroups). \<forall>gv \<in> set (preferredOf sg).
                    ServerResourcesForGroupVersion c' gv
                      = ServerResourcesForGroupVersion (client rv) gv)
            \<longrightarrow> indexResources (rv\<lparr>client := c'\<rparr>) = Inr index)"
proof (intro conjI allI impI)
  from assms obtain rs where
    rs: "fetchedGroups (client rv) (Groups serverGroups) = Inr rs"
    and index: "index = indexAPIResources Map.empty rs"
    by (auto simp: indexResources_fetched fetchedResources_def split: sum.splits)
  {
    fix k r assume "index k = Some r"
    with index indexAPIResources_Some[of Map.empty rs k r]
    have r: "r \<in> set rs" and k: "k \<in> set (keysOf r)" by simp_all
    from k show "k \<in> set (keysOf r)" .
    from fetchedGroups_source[OF rs r]
    show "\<exists>sg \<in> set (Groups serverGroups). \<exists>gv \<in> set (preferredOf sg). \<exists>rsList.
               ServerResourcesForGroupVersion (client rv) gv = Inr rsList
               \<and> r \<in> set (APIResources rsList)" .
  }
  {
    fix c' :: DiscoveryInterface
    assume c': "ServerGroups c' = Inr serverGroups
              \<and> (\<forall>sg \<in> set (Groups serverGroups). \<forall>gv \<in> set (preferredOf sg).
                    ServerResourcesForGroupVersion c' gv
                      = ServerResourcesForGroupVersion (client rv) gv)"
    then have "fetchedGroups c' (Groups serverGroups) = fetchedGroups (client rv) (Groups serverGroups)"
      by (intro fetchedGroups_cong) simp
    with c' rs index show "indexResources (rv\<lparr>client := c'\<rparr>) = Inr index"
      by (simp add: indexResources_fetched fetchedResources_def)
  }
qed

theorem index_from_preferred_versions_only_witness:
  "ServerGroups (client cluster) = Inr \<lparr>Groups = [coreGroup, appsGroup]\<rparr>
   \<and> indexResources cluster = Inr clusterIndex
   \<and> preferredOf appsGroup = [''apps/v1'']
   \<and> ServerResourcesForGroupVersion (client cluster) ''apps/v1beta1''
        = Inr \<lparr>APIResources = [deploymentsBeta]\<rparr>
   \<and> clusterIndex ''deployments'' = Some deployments \<and> deployments \<noteq> deploymentsBeta
   \<and> ServerResourcesForGroupVersion clusterClient' ''apps/v1beta1'' = Inr \<lparr>APIResources = [pods]\<rparr>
   \<and> indexResources (cluster\<lparr>client := clusterClient'\<rparr>) = Inr clusterIndex"
proof -
  have g: "ServerGroups (client cluster) = Inr \<lparr>Groups = [coreGroup, appsGroup]\<rparr>"
    by (simp add: cluster_sel clusterClient_def)
  have p: "preferredOf coreGroup = [''v1'']" "preferredOf appsGroup = [''apps/v1'']"
    by (simp_all add: preferredOf_def coreGroup_def appsGroup_def)
  have c: "ServerGroups clusterClient' = Inr \<lparr>Groups = [coreGroup, appsGroup]\<rparr>
     \<and> (\<forall>sg \<in> set (Groups \<lparr>Groups = [coreGroup, appsGroup]\<rparr>). \<forall>gv \<in> set (preferredOf sg).
           ServerResourcesForGroupVersion clusterClient' gv
             = ServerResourcesForGroupVersion (client cluster) gv)"
    by (simp add: p cluster_sel clusterClient'_def clusterClient_def)
  have b: "ServerResourcesForGroupVersion (client cluster) ''apps/v1beta1''
        = Inr \<lparr>APIResources = [deploymentsBeta]\<rparr>"
    "ServerResourcesForGroupVersion clusterClient' ''apps/v1beta1'' = Inr \<lparr>APIResources = [pods]\<rparr>"
    by (simp_all add: cluster_sel clusterClient'_def clusterClient_def)
  have d: "clusterIndex ''deployments'' = Some deployments" "deployments \<noteq> deploymentsBeta"
    by (simp_all add: clusterIndex_def deployments_def deploymentsBeta_def)
  from index_from_preferred_versions_only[OF g indexResources_cluster] c
  have "indexResources (cluster\<lparr>client := clusterClient'\<rparr>) = Inr clusterIndex"
    by blast
  then show ?thesis using g indexResources_cluster p b d by simp
qed

section \<open>The policy rule matcher and the role index\<close>

text \<open>
  The modelled matcher and index agree with the test file: scenarios A to L of
  \<^verbatim>\<open>TestWhoCan_policyRuleMatches\<close> and the two checks of \<^verbatim>\<open>TestMatch\<close>.
\<close>

lemmas rule_defs = policyRuleMatches_def query_def resourceRule_def urlRule_def

lemma policyRuleMatches_scenarios_A_to_D:
  "policyRuleMatches (query ''get'' ''services'' [] []) (resourceRule [''get'', ''list''] [''services''] [])"
  "policyRuleMatches (query ''get'' ''services'' [] []) (resourceRule [''get'', ''list''] [''*''] [])"
  "policyRuleMatches (query ''get'' ''services'' [] []) (resourceRule [''*''] [''services''] [])"
  "policyRuleMatches (query ''get'' ''services'' ''mongodb'' []) (resourceRule [''get'', ''list''] [''services''] [])"
  by (simp_all add: rule_defs)

lemma policyRuleMatches_scenarios_E_to_I:
  "policyRuleMatches (query ''get'' ''services'' ''mongodb'' [])
     (resourceRule [''get'', ''list''] [''services''] [''mongodb'', ''nginx''])"
  "\<not> policyRuleMatches (query ''get'' ''services'' ''mongodb'' [])
     (resourceRule [''get'', ''list''] [''services''] [''nginx''])"
  "\<not> policyRuleMatches (query ''get'' ''services'' [] [])
     (resourceRule [''get'', ''list''] [''services''] [''nginx''])"
  "\<not> policyRuleMatches (query ''get'' ''pods'' [] []) (resourceRule [''create''] [''pods''] [])"
  "\<not> policyRuleMatches (query ''get'' ''persistentvolumes'' [] []) (resourceRule [''get''] [''pods''] [])"
  by (simp_all add: rule_defs)

lemma policyRuleMatches_scenarios_J_to_L:
  "policyRuleMatches (query ''get'' [] [] ''/logs'') (urlRule [''get''] [''/logs''])"
  "\<not> policyRuleMatches (query ''get'' [] [] ''/logs'') (urlRule [''post''] [''/logs''])"
  "\<not> policyRuleMatches (query ''get'' [] [] ''/logs'') (urlRule [''get''] [''/api''])"
  by (simp_all add: rule_defs)

lemma TestMatch:
  "match (Map.empty(\<lparr>name = ''hello'', isClusterRole = False\<rparr> \<mapsto> ()))
     \<lparr>Kind = ''Something else'', RefName = ''hello''\<rparr>"
  "\<not> match (Map.empty(\<lparr>name = ''hello'', isClusterRole = False\<rparr> \<mapsto> ()))
     \<lparr>Kind = ''ClusterRole'', RefName = ''hello''\<rparr>"
  by (simp_all add: match_def)

lemma dom_insertRoles: "dom (insertRoles es r) = dom r \<union> set es"
  unfolding insertRoles_def by (induction es arbitrary: r) (auto simp: insertRole_def)

text \<open>
  C2 (as the model has it). The claim reads: for a rule with a non-empty resourceNames and a
  resource-mode query whose verb and resource the rule covers, the rule does not match when
  the query's resourceName is empty, matches when it is a member of resourceNames, and does
  not match when it is non-empty and not a member; with an empty resourceNames the rule
  matches whatever the resourceName. The first two clauses disagree when the empty string is
  itself listed in resourceNames; there the membership test of section 4.2 decides, and the
  rule matches. What holds: with an empty resourceNames the rule matches; with a non-empty
  one it matches exactly when the query's resourceName is a member; so an empty resourceName
  is not matched unless the empty string is listed.
\<close>

theorem name_restricted_rule:
  assumes "nonResourceURL w = []"
    and "verb w \<in> set (RuleVerbs rule) \<or> ''*'' \<in> set (RuleVerbs rule)"
    and "resource w \<in> set (Resources rule) \<or> ''*'' \<in> set (Resources rule)"
  shows "(ResourceNames rule = [] \<longrightarrow> policyRuleMatches w rule)
       \<and> (ResourceNames rule \<noteq> [] \<longrightarrow>
            policyRuleMatches w rule = (resourceName w \<in> set (ResourceNames rule)))
       \<and> (ResourceNames rule \<noteq> [] \<and> resourceName w = [] \<and> [] \<notin> set (ResourceNames rule) \<longrightarrow>
            \<not> policyRuleMatches w rule)"
  using assms by (auto simp: policyRuleMatches_def)

theorem name_restricted_rule_witness:
  "nonResourceURL (query ''get'' ''services'' [] []) = []
   \<and> ''get'' \<in> set (RuleVerbs (resourceRule [''get'', ''list''] [''services''] [''nginx'']))
   \<and> ''services'' \<in> set (Resources (resourceRule [''get'', ''list''] [''services''] [''nginx'']))
   \<and> \<not> policyRuleMatches (query ''get'' ''services'' [] [])
         (resourceRule [''get'', ''list''] [''services''] [''nginx''])
   \<and> policyRuleMatches (query ''get'' ''services'' ''nginx'' [])
         (resourceRule [''get'', ''list''] [''services''] [''nginx''])
   \<and> \<not> policyRuleMatches (query ''get'' ''services'' ''mongodb'' [])
         (resourceRule [''get'', ''list''] [''services''] [''nginx''])
   \<and> policyRuleMatches (query ''get'' ''services'' ''mongodb'' [])
         (resourceRule [''get'', ''list''] [''services''] [])"
  using name_restricted_rule[of "query ''get'' ''services'' [] []"
          "resourceRule [''get'', ''list''] [''services''] [''nginx'']"]
        name_restricted_rule[of "query ''get'' ''services'' ''nginx'' []"
          "resourceRule [''get'', ''list''] [''services''] [''nginx'']"]
        name_restricted_rule[of "query ''get'' ''services'' ''mongodb'' []"
          "resourceRule [''get'', ''list''] [''services''] [''nginx'']"]
        name_restricted_rule[of "query ''get'' ''services'' ''mongodb'' []"
          "resourceRule [''get'', ''list''] [''services''] []"]
  by (simp add: query_def resourceRule_def)

text \<open>
  C2 as stated fails: a rule whose resourceNames is the one empty string has a non-empty
  resourceNames, and matches the query with the empty resourceName.
\<close>

theorem empty_name_listed_in_rule_matches:
  "ResourceNames (resourceRule [''get''] [''services''] [[]]) \<noteq> []
   \<and> nonResourceURL (query ''get'' ''services'' [] []) = []
   \<and> resourceName (query ''get'' ''services'' [] []) = []
   \<and> ''get'' \<in> set (RuleVerbs (resourceRule [''get''] [''services''] [[]]))
   \<and> ''services'' \<in> set (Resources (resourceRule [''get''] [''services''] [[]]))
   \<and> policyRuleMatches (query ''get'' ''services'' [] []) (resourceRule [''get''] [''services''] [[]])"
  by (simp add: rule_defs)

text \<open>
  C3. The two modes are disjoint. A rule with no resources matches no resource-mode query
  (one whose nonResourceURL is empty); a rule with no nonResourceURLs matches no query that
  carries a non-resource URL; and when the query carries a non-resource URL the answer does
  not depend on the rule's resources and resourceNames.
\<close>

theorem matching_modes_disjoint:
  "(Resources rule = [] \<and> nonResourceURL w = [] \<longrightarrow> \<not> policyRuleMatches w rule)
   \<and> (NonResourceURLs rule = [] \<and> nonResourceURL w \<noteq> [] \<longrightarrow> \<not> policyRuleMatches w rule)
   \<and> (nonResourceURL w \<noteq> [] \<longrightarrow>
        policyRuleMatches w (rule\<lparr>Resources := rs, ResourceNames := rns\<rparr>)
          = policyRuleMatches w rule)"
  by (simp add: policyRuleMatches_def)

theorem matching_modes_disjoint_witness:
  "Resources (urlRule [''get''] [''/logs'']) = []
   \<and> nonResourceURL (query ''get'' ''pods'' [] []) = []
   \<and> \<not> policyRuleMatches (query ''get'' ''pods'' [] []) (urlRule [''get''] [''/logs''])
   \<and> NonResourceURLs (resourceRule [''get''] [''pods''] []) = []
   \<and> nonResourceURL (query ''get'' [] [] ''/logs'') \<noteq> []
   \<and> \<not> policyRuleMatches (query ''get'' [] [] ''/logs'') (resourceRule [''get''] [''pods''] [])
   \<and> policyRuleMatches (query ''get'' [] [] ''/logs'')
        ((urlRule [''get''] [''/logs''])\<lparr>Resources := [''pods''], ResourceNames := [''nginx'']\<rparr>)
   \<and> policyRuleMatches (query ''get'' [] [] ''/logs'') (urlRule [''get''] [''/logs''])"
  using matching_modes_disjoint[where rule = "urlRule [''get''] [''/logs'']"
          and w = "query ''get'' ''pods'' [] []"]
        matching_modes_disjoint[where rule = "resourceRule [''get''] [''pods''] []"
          and w = "query ''get'' [] [] ''/logs''"]
        matching_modes_disjoint[where rule = "urlRule [''get''] [''/logs'']"
          and w = "query ''get'' [] [] ''/logs''" and rs = "[''pods'']" and rns = "[''nginx'']"]
        policyRuleMatches_scenarios_J_to_L(1)
  by (simp add: query_def resourceRule_def urlRule_def)

text \<open>
  C4. The role index answers by name and scope, whatever the insertion order. A reference
  matches exactly when the index holds an identity with the reference's name and with the
  cluster flag equal to "the reference's kind is ClusterRole"; after inserting a sequence of
  identities into the empty index this depends on the set of inserted identities only, so
  two sequences with the same elements give the same answers; inserting a namespaced role
  never changes the answer for a ClusterRole reference; and a reference of any kind other
  than the literal ClusterRole is answered as a reference of kind Role.
\<close>

theorem match_by_name_and_scope:
  "(match r ref = (\<exists>e \<in> dom r. name e = RefName ref \<and> isClusterRole e = (Kind ref = ''ClusterRole'')))
   \<and> (match (insertRoles es Map.empty) ref
        = (\<exists>e \<in> set es. name e = RefName ref \<and> isClusterRole e = (Kind ref = ''ClusterRole'')))
   \<and> (set es = set es' \<longrightarrow> match (insertRoles es r) ref = match (insertRoles es' r) ref)
   \<and> (Kind ref = ''ClusterRole'' \<longrightarrow>
        match (insertRole \<lparr>name = n, isClusterRole = False\<rparr> r) ref = match r ref)
   \<and> (Kind ref \<noteq> ''ClusterRole'' \<longrightarrow> match r ref = match r (ref\<lparr>Kind := ''Role''\<rparr>))"
proof -
  have m: "match r ref = (\<exists>e \<in> dom r. name e = RefName ref \<and> isClusterRole e = (Kind ref = ''ClusterRole''))"
    for r :: roles and ref :: RoleRef
  proof
    assume "match r ref"
    then have "\<lparr>name = RefName ref, isClusterRole = (Kind ref = ''ClusterRole'')\<rparr> \<in> dom r"
      by (auto simp: match_def)
    then show "\<exists>e \<in> dom r. name e = RefName ref \<and> isClusterRole e = (Kind ref = ''ClusterRole'')"
      by (rule rev_bexI) simp
  next
    assume "\<exists>e \<in> dom r. name e = RefName ref \<and> isClusterRole e = (Kind ref = ''ClusterRole'')"
    then obtain e where e: "e \<in> dom r" "name e = RefName ref"
      "isClusterRole e = (Kind ref = ''ClusterRole'')" by blast
    then have "e = \<lparr>name = RefName ref, isClusterRole = (Kind ref = ''ClusterRole'')\<rparr>"
      by (cases e) simp
    with e(1) show "match r ref" by (auto simp: match_def)
  qed
  have "match (insertRoles es Map.empty) ref
        = (\<exists>e \<in> set es. name e = RefName ref \<and> isClusterRole e = (Kind ref = ''ClusterRole''))"
    by (simp add: m dom_insertRoles)
  moreover have "set es = set es' \<longrightarrow> match (insertRoles es r) ref = match (insertRoles es' r) ref"
    by (simp add: m dom_insertRoles)
  moreover have "Kind ref = ''ClusterRole'' \<longrightarrow>
        match (insertRole \<lparr>name = n, isClusterRole = False\<rparr> r) ref = match r ref"
    by (simp add: match_def insertRole_def)
  moreover have "Kind ref \<noteq> ''ClusterRole'' \<longrightarrow> match r ref = match r (ref\<lparr>Kind := ''Role''\<rparr>)"
    by (simp add: match_def)
  ultimately show ?thesis using m by blast
qed

theorem match_by_name_and_scope_witness:
  "set [\<lparr>name = ''edit'', isClusterRole = False\<rparr>, \<lparr>name = ''view'', isClusterRole = True\<rparr>]
     = set [\<lparr>name = ''view'', isClusterRole = True\<rparr>, \<lparr>name = ''edit'', isClusterRole = False\<rparr>]
   \<and> match (insertRoles [\<lparr>name = ''edit'', isClusterRole = False\<rparr>, \<lparr>name = ''view'', isClusterRole = True\<rparr>] Map.empty)
        \<lparr>Kind = ''Role'', RefName = ''edit''\<rparr>
   \<and> match (insertRoles [\<lparr>name = ''view'', isClusterRole = True\<rparr>, \<lparr>name = ''edit'', isClusterRole = False\<rparr>] Map.empty)
        \<lparr>Kind = ''Role'', RefName = ''edit''\<rparr>
   \<and> \<not> match (insertRoles [\<lparr>name = ''edit'', isClusterRole = False\<rparr>, \<lparr>name = ''view'', isClusterRole = True\<rparr>] Map.empty)
        \<lparr>Kind = ''ClusterRole'', RefName = ''edit''\<rparr>
   \<and> \<not> match (insertRole \<lparr>name = ''edit'', isClusterRole = False\<rparr> Map.empty)
        \<lparr>Kind = ''ClusterRole'', RefName = ''edit''\<rparr>
   \<and> match (insertRole \<lparr>name = ''edit'', isClusterRole = False\<rparr> Map.empty)
        \<lparr>Kind = ''Something else'', RefName = ''edit''\<rparr>"
proof -
  let ?edit = "\<lparr>name = ''edit'', isClusterRole = False\<rparr>"
  let ?view = "\<lparr>name = ''view'', isClusterRole = True\<rparr>"
  have s: "set [?edit, ?view] = set [?view, ?edit]" by auto
  note a = match_by_name_and_scope[where r = Map.empty and es = "[?edit, ?view]"
      and es' = "[?view, ?edit]" and n = "''edit''"]
  have "match (insertRoles [?edit, ?view] Map.empty) \<lparr>Kind = ''Role'', RefName = ''edit''\<rparr>"
    using a[where ref = "\<lparr>Kind = ''Role'', RefName = ''edit''\<rparr>"] by simp
  moreover have "match (insertRoles [?view, ?edit] Map.empty) \<lparr>Kind = ''Role'', RefName = ''edit''\<rparr>"
    using a[where ref = "\<lparr>Kind = ''Role'', RefName = ''edit''\<rparr>"] s calculation by simp
  moreover have "\<not> match (insertRoles [?edit, ?view] Map.empty)
        \<lparr>Kind = ''ClusterRole'', RefName = ''edit''\<rparr>"
    using a[where ref = "\<lparr>Kind = ''ClusterRole'', RefName = ''edit''\<rparr>"] by simp
  moreover have "\<not> match (insertRole ?edit Map.empty) \<lparr>Kind = ''ClusterRole'', RefName = ''edit''\<rparr>"
    using a[where ref = "\<lparr>Kind = ''ClusterRole'', RefName = ''edit''\<rparr>"]
    by (simp add: match_def)
  moreover have "match (insertRole ?edit Map.empty) \<lparr>Kind = ''Something else'', RefName = ''edit''\<rparr>"
    using match_by_name_and_scope[where r = "insertRole ?edit Map.empty"
        and ref = "\<lparr>Kind = ''Something else'', RefName = ''edit''\<rparr>"]
    by (simp add: match_def insertRole_def)
  ultimately show ?thesis using s by simp
qed

end
